theory Spec2Isabelle
  imports Complex_Main "HOL-Library.Stream"
begin

section \<open>JavaScript numbers\<close>

text \<open>
  The forecasting code of \<^verbatim>\<open>src/utils/prediction.ts\<close> computes with the
  \<^verbatim>\<open>number\<close> type of JavaScript. The specification describes a price series as
  "an ordered sequence of real numbers", and the model follows it: a finite number is
  a real, and every operation on finite numbers is exact. The special values that the
  code can produce from real inputs are part of the model, because the code relies on
  them: a division by zero yields an infinity or \<^verbatim>\<open>NaN\<close>, comparisons with
  \<^verbatim>\<open>NaN\<close> are false, \<^verbatim>\<open>Math.min\<close> and \<^verbatim>\<open>Math.max\<close> propagate it.

  Not modelled: the rounding of binary64 arithmetic, its overflow and underflow, and the
  sign of zero (the two zeros are one value here; from inputs without a negative zero the
  code never divides by a computed negative zero). Where a claim equates or bounds the
  result of arithmetic on arbitrary inputs (the correlation of a sequence with itself,
  the range of the relative strength index), its statement is therefore written in terms
  of the operations themselves, so that it reads the same with the binary64 operations in
  their place.
\<close>

datatype jsnum = Num real | PosInf | NegInf | NaN

instantiation jsnum :: "{uminus, plus, minus, times, inverse, ord}"
begin

fun uminus_jsnum :: "jsnum \<Rightarrow> jsnum" where
  "uminus_jsnum (Num a) = Num (- a)"
| "uminus_jsnum PosInf = NegInf"
| "uminus_jsnum NegInf = PosInf"
| "uminus_jsnum NaN = NaN"

fun plus_jsnum :: "jsnum \<Rightarrow> jsnum \<Rightarrow> jsnum" where
  "plus_jsnum NaN y = NaN"
| "plus_jsnum x NaN = NaN"
| "plus_jsnum PosInf NegInf = NaN"
| "plus_jsnum NegInf PosInf = NaN"
| "plus_jsnum PosInf y = PosInf"
| "plus_jsnum x PosInf = PosInf"
| "plus_jsnum NegInf y = NegInf"
| "plus_jsnum x NegInf = NegInf"
| "plus_jsnum (Num a) (Num b) = Num (a + b)"

definition minus_jsnum :: "jsnum \<Rightarrow> jsnum \<Rightarrow> jsnum" where
  "minus_jsnum x y = x + (- y)"

text \<open>An infinity times a finite number: zero gives \<^verbatim>\<open>NaN\<close>, otherwise the signs multiply.\<close>

fun times_jsnum :: "jsnum \<Rightarrow> jsnum \<Rightarrow> jsnum" where
  "times_jsnum NaN y = NaN"
| "times_jsnum x NaN = NaN"
| "times_jsnum (Num a) (Num b) = Num (a * b)"
| "times_jsnum PosInf PosInf = PosInf"
| "times_jsnum PosInf NegInf = NegInf"
| "times_jsnum NegInf PosInf = NegInf"
| "times_jsnum NegInf NegInf = PosInf"
| "times_jsnum PosInf (Num b) = (if b = 0 then NaN else if 0 < b then PosInf else NegInf)"
| "times_jsnum NegInf (Num b) = (if b = 0 then NaN else if 0 < b then NegInf else PosInf)"
| "times_jsnum (Num a) PosInf = (if a = 0 then NaN else if 0 < a then PosInf else NegInf)"
| "times_jsnum (Num a) NegInf = (if a = 0 then NaN else if 0 < a then NegInf else PosInf)"

text \<open>
  Division: \<^verbatim>\<open>0/0\<close> and an infinity over an infinity are \<^verbatim>\<open>NaN\<close>; a non-zero
  finite number over zero is the infinity of its sign; a finite number over an infinity
  is zero.
\<close>

fun divide_jsnum :: "jsnum \<Rightarrow> jsnum \<Rightarrow> jsnum" where
  "divide_jsnum NaN y = NaN"
| "divide_jsnum x NaN = NaN"
| "divide_jsnum (Num a) (Num b) =
     (if b = 0 then (if a = 0 then NaN else if 0 < a then PosInf else NegInf)
      else Num (a / b))"
| "divide_jsnum (Num a) PosInf = Num 0"
| "divide_jsnum (Num a) NegInf = Num 0"
| "divide_jsnum PosInf (Num b) = (if 0 \<le> b then PosInf else NegInf)"
| "divide_jsnum NegInf (Num b) = (if 0 \<le> b then NegInf else PosInf)"
| "divide_jsnum PosInf y = NaN"
| "divide_jsnum NegInf y = NaN"

fun inverse_jsnum :: "jsnum \<Rightarrow> jsnum" where
  "inverse_jsnum (Num b) = (if b = 0 then PosInf else Num (1 / b))"
| "inverse_jsnum PosInf = Num 0"
| "inverse_jsnum NegInf = Num 0"
| "inverse_jsnum NaN = NaN"

text \<open>The comparisons \<^verbatim>\<open><\<close> and \<^verbatim>\<open><=\<close>: false as soon as one side is \<^verbatim>\<open>NaN\<close>.\<close>

fun less_jsnum :: "jsnum \<Rightarrow> jsnum \<Rightarrow> bool" where
  "less_jsnum NaN y = False"
| "less_jsnum x NaN = False"
| "less_jsnum (Num a) (Num b) = (a < b)"
| "less_jsnum x NegInf = False"
| "less_jsnum PosInf y = False"
| "less_jsnum NegInf y = True"
| "less_jsnum x PosInf = True"

fun less_eq_jsnum :: "jsnum \<Rightarrow> jsnum \<Rightarrow> bool" where
  "less_eq_jsnum NaN y = False"
| "less_eq_jsnum x NaN = False"
| "less_eq_jsnum (Num a) (Num b) = (a \<le> b)"
| "less_eq_jsnum NegInf y = True"
| "less_eq_jsnum x PosInf = True"
| "less_eq_jsnum x NegInf = False"
| "less_eq_jsnum PosInf y = False"

instance ..

end

text \<open>Strict equality \<^verbatim>\<open>===\<close> on numbers: \<^verbatim>\<open>NaN\<close> equals nothing.\<close>

definition strict_eq :: "jsnum \<Rightarrow> jsnum \<Rightarrow> bool" where
  "strict_eq x y = (x \<noteq> NaN \<and> x = y)"

fun Math_sqrt :: "jsnum \<Rightarrow> jsnum" where
  "Math_sqrt (Num a) = (if a < 0 then NaN else Num (sqrt a))"
| "Math_sqrt PosInf = PosInf"
| "Math_sqrt NegInf = NaN"
| "Math_sqrt NaN = NaN"

fun Math_exp :: "jsnum \<Rightarrow> jsnum" where
  "Math_exp (Num a) = Num (exp a)"
| "Math_exp PosInf = PosInf"
| "Math_exp NegInf = Num 0"
| "Math_exp NaN = NaN"

text \<open>\<^verbatim>\<open>Math.pow(x, 2)\<close>, the only use of \<^verbatim>\<open>Math.pow\<close> in the code.\<close>

definition Math_pow2 :: "jsnum \<Rightarrow> jsnum" where
  "Math_pow2 x = x * x"

definition Math_min :: "jsnum \<Rightarrow> jsnum \<Rightarrow> jsnum" where
  "Math_min x y = (if x = NaN \<or> y = NaN then NaN else if x < y then x else y)"

definition Math_max :: "jsnum \<Rightarrow> jsnum \<Rightarrow> jsnum" where
  "Math_max x y = (if x = NaN \<or> y = NaN then NaN else if y < x then x else y)"

text \<open>
  \<^verbatim>\<open>Number(x.toFixed(2))\<close>. For a magnitude below \<^verbatim>\<open>1e21\<close>, \<^verbatim>\<open>toFixed(2)\<close>
  takes the integer \<open>n\<close> with \<open>n / 100\<close> closest to the magnitude, the larger one of two,
  and keeps the sign; from \<^verbatim>\<open>1e21\<close> on, and for \<^verbatim>\<open>NaN\<close> and the infinities, it prints
  the number itself, which \<^verbatim>\<open>Number\<close> reads back.
\<close>

fun Number_toFixed2 :: "jsnum \<Rightarrow> jsnum" where
  "Number_toFixed2 (Num a) =
     (if 10 ^ 21 \<le> \<bar>a\<bar> then Num a
      else Num (sgn a * (of_int \<lfloor>\<bar>a\<bar> * 100 + 1 / 2\<rfloor> / 100)))"
| "Number_toFixed2 x = x"

section \<open>Arrays\<close>

text \<open>
  \<^verbatim>\<open>arr.slice(start)\<close> and \<^verbatim>\<open>arr.slice(start, end)\<close>: a negative position counts
  from the end, and every position is clamped to the array.
\<close>

definition slice_pos :: "'a list \<Rightarrow> int \<Rightarrow> nat" where
  "slice_pos xs k =
     (if k < 0 then nat (max (int (length xs) + k) 0) else min (nat k) (length xs))"

definition slice_from :: "'a list \<Rightarrow> int \<Rightarrow> 'a list" where
  "slice_from xs start = drop (slice_pos xs start) xs"

definition slice :: "'a list \<Rightarrow> int \<Rightarrow> int \<Rightarrow> 'a list" where
  "slice xs start end =
     take (slice_pos xs end - slice_pos xs start) (drop (slice_pos xs start) xs)"

text \<open>
  \<^verbatim>\<open>arr[i]\<close> read as a number: outside the array the read gives \<^verbatim>\<open>undefined\<close>,
  which the arithmetic that consumes it turns into \<^verbatim>\<open>NaN\<close>.
\<close>

definition elem_at :: "jsnum list \<Rightarrow> int \<Rightarrow> jsnum" where
  "elem_at xs i = (if 0 \<le> i \<and> i < int (length xs) then xs ! nat i else NaN)"

text \<open>\<^verbatim>\<open>arr.reduce((a, b) => a + b, 0)\<close>\<close>

definition reduce_sum :: "jsnum list \<Rightarrow> jsnum" where
  "reduce_sum xs = foldl (\<lambda>a b. a + b) (Num 0) xs"

section \<open>The indicator functions\<close>

text \<open>
  \<^verbatim>\<open>calculateCorrelation\<close>: the means divide the sum of the whole array by
  \<open>n = min(x.length, y.length)\<close>; the loop runs over the first \<open>n\<close> entries and
  updates the three accumulators.
\<close>

definition correlation_step ::
  "jsnum list \<Rightarrow> jsnum list \<Rightarrow> jsnum \<Rightarrow> jsnum \<Rightarrow> nat \<Rightarrow> jsnum \<times> jsnum \<times> jsnum \<Rightarrow> jsnum \<times> jsnum \<times> jsnum"
where
  "correlation_step x y xMean yMean i acc =
     (case acc of (numerator, xVariance, yVariance) \<Rightarrow>
        (let xDiff = x ! i - xMean;
             yDiff = y ! i - yMean
         in (numerator + xDiff * yDiff, xVariance + xDiff * xDiff, yVariance + yDiff * yDiff)))"

definition calculateCorrelation :: "jsnum list \<Rightarrow> jsnum list \<Rightarrow> jsnum" where
  "calculateCorrelation x y =
     (let n = min (length x) (length y) in
      if n < 2 then Num 0
      else
        (let xMean = reduce_sum x / Num (real n);
             yMean = reduce_sum y / Num (real n)
         in case fold (correlation_step x y xMean yMean) [0..<n] (Num 0, Num 0, Num 0) of
              (numerator, xVariance, yVariance) \<Rightarrow>
                numerator / Math_sqrt (xVariance * yVariance)))"

text \<open>
  \<^verbatim>\<open>calculateReturns\<close>: \<^verbatim>\<open>prices.slice(1).map((price, i) => (price - prices[i]) / prices[i])\<close>.
  The index \<open>i\<close> of the map runs over the sliced array, so \<open>prices[i]\<close> is the entry
  before \<open>price\<close>.
\<close>

definition calculateReturns :: "jsnum list \<Rightarrow> jsnum list" where
  "calculateReturns prices =
     map (\<lambda>i. (slice_from prices 1 ! i - prices ! i) / prices ! i)
       [0..<length (slice_from prices 1)]"

definition calculateVolatility :: "jsnum list \<Rightarrow> int \<Rightarrow> jsnum" where
  "calculateVolatility prices window =
     (let returns = calculateReturns (slice_from prices (- window));
          mean = reduce_sum returns / Num (real (length returns));
          variance = foldl (\<lambda>a b. a + Math_pow2 (b - mean)) (Num 0) returns
                       / Num (real (length returns))
      in Math_sqrt variance)"

text \<open>
  \<^verbatim>\<open>calculateRSI\<close>, one definition for each of its local constants. The first entry
  of the mapped array is the placeholder \<open>0\<close>, which \<^verbatim>\<open>slice(1)\<close> drops.
\<close>

definition RSI_changes :: "jsnum list \<Rightarrow> int \<Rightarrow> jsnum list" where
  "RSI_changes prices period =
     (let arr = slice_from prices (- period - 1) in
      slice_from (map (\<lambda>i. if 0 < i then arr ! i - arr ! (i - 1) else Num 0) [0..<length arr]) 1)"

definition RSI_gains :: "jsnum list \<Rightarrow> int \<Rightarrow> jsnum list" where
  "RSI_gains prices period =
     map (\<lambda>change. if Num 0 < change then change else Num 0) (RSI_changes prices period)"

definition RSI_losses :: "jsnum list \<Rightarrow> int \<Rightarrow> jsnum list" where
  "RSI_losses prices period =
     map (\<lambda>change. if change < Num 0 then - change else Num 0) (RSI_changes prices period)"

definition RSI_avgGain :: "jsnum list \<Rightarrow> int \<Rightarrow> jsnum" where
  "RSI_avgGain prices period = reduce_sum (RSI_gains prices period) / Num (real_of_int period)"

definition RSI_avgLoss :: "jsnum list \<Rightarrow> int \<Rightarrow> jsnum" where
  "RSI_avgLoss prices period = reduce_sum (RSI_losses prices period) / Num (real_of_int period)"

definition calculateRSI :: "jsnum list \<Rightarrow> int \<Rightarrow> jsnum" where
  "calculateRSI prices period =
     (let avgGain = RSI_avgGain prices period;
          avgLoss = RSI_avgLoss prices period
      in if strict_eq avgLoss (Num 0) then Num 70
         else (let rs = avgGain / avgLoss in Num 100 - Num 100 / (Num 1 + rs)))"

text \<open>\<^verbatim>\<open>calculateMA\<close>: one entry is pushed for every index of \<open>prices\<close>.\<close>

definition calculateMA :: "jsnum list \<Rightarrow> int \<Rightarrow> jsnum list" where
  "calculateMA prices period =
     map (\<lambda>i. if int i < period - 1 then NaN
              else reduce_sum (slice prices (int i - period + 1) (int i + 1))
                     / Num (real_of_int period))
       [0..<length prices]"

definition calculateMomentum :: "jsnum list \<Rightarrow> int \<Rightarrow> jsnum" where
  "calculateMomentum prices period =
     (if int (length prices) < period then Num 0
      else
        (let recentPrices = slice_from prices (- period);
             returns = calculateReturns recentPrices
         in reduce_sum returns / Num (real (length returns))))"

definition calculateMeanReversionSignal :: "jsnum \<Rightarrow> jsnum \<Rightarrow> jsnum \<Rightarrow> jsnum" where
  "calculateMeanReversionSignal price ma20 ma50 =
     (let shortTermDev = (price - ma20) / ma20;
          longTermDev = (price - ma50) / ma50
      in - (shortTermDev + longTermDev) / Num 2)"

section \<open>The forecast\<close>

text \<open>
  The indicator snapshot: the constants that \<^verbatim>\<open>predictFuturePrices\<close> computes once,
  before its loop. The defaults of the source are written out (window 20, periods 14 and
  10).
\<close>

record indicators =
  volatility :: jsnum
  rsi :: jsnum
  momentum :: jsnum
  ma20 :: "jsnum list"
  ma50 :: "jsnum list"
  correlation :: jsnum
  recentSpyReturn :: jsnum

definition snapshot :: "jsnum list \<Rightarrow> jsnum list \<Rightarrow> indicators" where
  "snapshot recentPrices spyPrices =
     \<lparr> volatility = calculateVolatility recentPrices 20,
       rsi = calculateRSI recentPrices 14,
       momentum = calculateMomentum recentPrices 10,
       ma20 = calculateMA recentPrices 20,
       ma50 = calculateMA recentPrices 50,
       correlation =
         (let spyReturns = calculateReturns (slice_from spyPrices (- 20));
              stockReturns = calculateReturns (slice_from recentPrices (- 20))
          in calculateCorrelation spyReturns stockReturns),
       recentSpyReturn =
         (elem_at spyPrices (int (length spyPrices) - 1)
            - elem_at spyPrices (int (length spyPrices) - 2))
           / elem_at spyPrices (int (length spyPrices) - 2) \<rparr>"

text \<open>
  The body of the loop, one definition for each local constant that a claim names.
  \<open>i\<close> is the loop counter, \<open>u\<close> the value that \<^verbatim>\<open>Math.random()\<close> returns in this
  iteration.
\<close>

definition expectedReturn :: "indicators \<Rightarrow> jsnum \<Rightarrow> int \<Rightarrow> jsnum" where
  "expectedReturn ind currentPrice i =
     (let meanReversionSignal =
            calculateMeanReversionSignal currentPrice
              (elem_at (ma20 ind) (int (length (ma20 ind)) - 1))
              (elem_at (ma50 ind) (int (length (ma50 ind)) - 1));
          rsiSignal = (Num 50 - rsi ind) / Num 50;
          marketInfluence = recentSpyReturn ind * correlation ind;
          momentumEffect = momentum ind * Math_exp (Num (- (5 / 10)) * Num (of_int i))
      in meanReversionSignal * Num (3 / 10) + rsiSignal * Num (2 / 10)
           + marketInfluence * Num (3 / 10) + momentumEffect * Num (2 / 10))"

definition randomComponent :: "indicators \<Rightarrow> int \<Rightarrow> real \<Rightarrow> jsnum" where
  "randomComponent ind i u =
     volatility ind * (Num u - Num (5 / 10)) * Math_sqrt (Num (of_int i))"

definition totalReturn :: "indicators \<Rightarrow> jsnum \<Rightarrow> int \<Rightarrow> real \<Rightarrow> jsnum" where
  "totalReturn ind currentPrice i u = expectedReturn ind currentPrice i + randomComponent ind i u"

definition dampening :: "int \<Rightarrow> jsnum" where
  "dampening i = Math_exp (Num (- (1 / 10)) * Num (of_int i))"

definition change :: "indicators \<Rightarrow> jsnum \<Rightarrow> int \<Rightarrow> real \<Rightarrow> jsnum" where
  "change ind currentPrice i u = totalReturn ind currentPrice i u * volatility ind * dampening i"

definition maxChange :: "indicators \<Rightarrow> jsnum" where
  "maxChange ind = Math_min (Num (1 / 10)) (volatility ind * Num 2)"

definition boundedChange :: "indicators \<Rightarrow> jsnum \<Rightarrow> int \<Rightarrow> real \<Rightarrow> jsnum" where
  "boundedChange ind currentPrice i u =
     Math_max (- maxChange ind) (Math_min (maxChange ind) (change ind currentPrice i u))"

definition newPrice :: "indicators \<Rightarrow> jsnum \<Rightarrow> int \<Rightarrow> real \<Rightarrow> jsnum" where
  "newPrice ind currentPrice i u = currentPrice * (Num 1 + boundedChange ind currentPrice i u)"

text \<open>
  The loop \<^verbatim>\<open>for (let i = 1; i <= daysToPredict; i++)\<close>. The random source is a
  stream of draws: each iteration calls \<^verbatim>\<open>Math.random()\<close> once, which takes the
  head of the stream and leaves its tail. The rounded price is pushed, the unrounded one
  is carried to the next iteration.
\<close>

function forecast_loop ::
  "indicators \<Rightarrow> int \<Rightarrow> int \<Rightarrow> jsnum \<Rightarrow> real stream \<Rightarrow> jsnum list"
where
  "forecast_loop ind daysToPredict i currentPrice random =
     (if i \<le> daysToPredict
      then Number_toFixed2 (newPrice ind currentPrice i (shd random))
             # forecast_loop ind daysToPredict (i + 1)
                 (newPrice ind currentPrice i (shd random)) (stl random)
      else [])"
  by pat_completeness auto
termination
  by (relation "measure (\<lambda>(ind, daysToPredict, i, currentPrice, random). nat (daysToPredict + 1 - i))")
    auto

definition predictFuturePrices ::
  "real stream \<Rightarrow> jsnum list \<Rightarrow> jsnum list \<Rightarrow> jsnum list list \<Rightarrow> int \<Rightarrow> jsnum list"
where
  "predictFuturePrices random targetPrices spyPrices correlatedStocksPrices daysToPredict =
     (if length targetPrices < 50 then []
      else
        (let recentPrices = slice_from targetPrices (- 50);
             lastPrice = elem_at recentPrices (int (length recentPrices) - 1)
         in forecast_loop (snapshot recentPrices spyPrices) daysToPredict 1 lastPrice random))"

text \<open>
  The values that \<^verbatim>\<open>predictFuturePrices\<close> hands to its loop, by name: the indicator
  snapshot of the 50 most recent target prices, and the last of those prices.
\<close>

definition forecast_indicators :: "jsnum list \<Rightarrow> jsnum list \<Rightarrow> indicators" where
  "forecast_indicators targetPrices spyPrices = snapshot (slice_from targetPrices (- 50)) spyPrices"

definition lastPrice :: "jsnum list \<Rightarrow> jsnum" where
  "lastPrice targetPrices =
     (let recentPrices = slice_from targetPrices (- 50)
      in elem_at recentPrices (int (length recentPrices) - 1))"

text \<open>
  The running price after \<open>k\<close> iterations of the loop that starts at counter \<open>i\<close> with
  the price \<open>currentPrice\<close>: the unrounded value that the loop carries. The running
  price of a forecast is the one of the loop that \<^verbatim>\<open>predictFuturePrices\<close> starts.
\<close>

primrec price_after :: "indicators \<Rightarrow> int \<Rightarrow> jsnum \<Rightarrow> real stream \<Rightarrow> nat \<Rightarrow> jsnum" where
  "price_after ind i currentPrice random 0 = currentPrice"
| "price_after ind i currentPrice random (Suc k) =
     newPrice ind (price_after ind i currentPrice random k) (i + int k) (random !! k)"

definition running_price :: "real stream \<Rightarrow> jsnum list \<Rightarrow> jsnum list \<Rightarrow> nat \<Rightarrow> jsnum" where
  "running_price random targetPrices spyPrices k =
     price_after (forecast_indicators targetPrices spyPrices) 1 (lastPrice targetPrices) random k"

section \<open>Notions of the statements\<close>

text \<open>A number that is not negative: a real from 0 on, or the positive infinity.\<close>

definition nonneg_or_inf :: "jsnum \<Rightarrow> bool" where
  "nonneg_or_inf x = (case x of Num r \<Rightarrow> 0 \<le> r | PosInf \<Rightarrow> True | _ \<Rightarrow> False)"


text \<open>
  The arithmetic mean of a sequence, in the words of the specification: the sum of the
  entries divided by their number. On a non-empty sequence of reals it is the real mean
  (lemma \<open>arithmetic_mean_Num\<close> below).
\<close>

definition arithmetic_mean :: "jsnum list \<Rightarrow> jsnum" where
  "arithmetic_mean xs = reduce_sum xs / Num (real (length xs))"

text \<open>
  The fractional change of a price relative to the previous one, and a change that lies
  within plus or minus a bound.
\<close>

definition fractional_change :: "jsnum \<Rightarrow> jsnum \<Rightarrow> jsnum" where
  "fractional_change previous price = (price - previous) / previous"

definition within_bound :: "jsnum \<Rightarrow> jsnum \<Rightarrow> bool" where
  "within_bound bound c = (- bound \<le> c \<and> c \<le> bound)"

section \<open>Example inputs\<close>

text \<open>
  Concrete inputs at which the theorems below are instantiated: a random source that
  always draws \<open>0.5\<close>, a target series that is too short, a constant one of 50 prices
  of \<open>100.125\<close>, one of 50 prices with a single dip 20 days before its end, and
  reference series of two and of three prices.
\<close>

definition half_draws :: "real stream" where
  "half_draws = sconst (1 / 2)"

definition short_target :: "jsnum list" where
  "short_target = replicate 49 (Num 100)"

definition flat_target :: "jsnum list" where
  "flat_target = replicate 50 (Num (801 / 8))"

definition dip_target :: "jsnum list" where
  "dip_target = replicate 30 (Num 100) @ [Num 50] @ replicate 19 (Num 100)"

definition spy_two :: "jsnum list" where
  "spy_two = [Num 1, Num 2]"

definition spy_three :: "jsnum list" where
  "spy_three = [Num 1, Num 2, Num 3]"

section \<open>The loop\<close>

lemma forecast_loop_length:
  "length (forecast_loop ind d i p rs) = nat (d + 1 - i)"
proof (induction ind d i p rs rule: forecast_loop.induct)
  case (1 ind d i p rs)
  show ?case
  proof (cases "i \<le> d")
    case True
    then have "nat (d + 1 - i) = Suc (nat (d + 1 - (i + 1)))"
      by simp
    with True "1.IH" show ?thesis
      by (subst forecast_loop.simps) simp
  next
    case False
    then show ?thesis
      by (subst forecast_loop.simps) simp
  qed
qed

lemma price_after_shift:
  "price_after ind (i + 1) (newPrice ind p i (shd rs)) (stl rs) k
     = price_after ind i p rs (Suc k)"
proof (induction k)
  case 0
  show ?case by simp
next
  case (Suc k)
  have "i + 1 + int k = i + int (Suc k)"
    by simp
  with Suc show ?case
    by (simp only: price_after.simps snth.simps)
qed

lemma forecast_loop_nth:
  "k < nat (d + 1 - i) \<Longrightarrow>
     forecast_loop ind d i p rs ! k = Number_toFixed2 (price_after ind i p rs (Suc k))"
proof (induction ind d i p rs arbitrary: k rule: forecast_loop.induct)
  case (1 ind d i p rs)
  from "1.prems" have le: "i \<le> d"
    by simp
  show ?case
  proof (cases k)
    case 0
    with le show ?thesis
      by (subst forecast_loop.simps) simp
  next
    case (Suc j)
    with "1.prems" le have j: "j < nat (d + 1 - (i + 1))"
      by simp
    have "forecast_loop ind d (i + 1) (newPrice ind p i (shd rs)) (stl rs) ! j
        = Number_toFixed2 (price_after ind (i + 1) (newPrice ind p i (shd rs)) (stl rs) (Suc j))"
      by (rule "1.IH"[OF le j])
    with le Suc show ?thesis
      by (subst forecast_loop.simps) (simp only: if_True nth_Cons_Suc price_after_shift)
  qed
qed


lemma predict_unfold:
  "50 \<le> length targetPrices \<Longrightarrow>
     predictFuturePrices random targetPrices spyPrices correlatedStocksPrices N
       = forecast_loop (forecast_indicators targetPrices spyPrices) N 1 (lastPrice targetPrices) random"
  by (simp add: predictFuturePrices_def forecast_indicators_def lastPrice_def Let_def)

section \<open>Insufficient history and the length of the forecast\<close>

text \<open>
  Claim C1. For every target price sequence with fewer than 50 entries, and for every
  reference sequence, every horizon and every random source, \<^verbatim>\<open>predictFuturePrices\<close>
  returns the empty sequence. The model is a total function whose every array read and
  division is a value, so there is no exception to raise.
\<close>

theorem predict_insufficient_history:
  "length targetPrices < 50 \<Longrightarrow>
     predictFuturePrices random targetPrices spyPrices correlatedStocksPrices daysToPredict = []"
  by (simp add: predictFuturePrices_def)

theorem predict_insufficient_history_witness:
  "length short_target < 50 \<and> predictFuturePrices half_draws short_target spy_two [] 5 = []"
  using predict_insufficient_history [of short_target half_draws spy_two "[]" 5]
  by (simp add: short_target_def)

text \<open>
  Claim C2. For every target price sequence with at least 50 entries, every reference
  sequence with at least 2 entries and every horizon \<open>N \<ge> 0\<close>, the forecast has exactly
  \<open>N\<close> entries, and they stand in step order: entry \<open>k\<close> (counted from 0) is the rounded
  running price after \<open>k + 1\<close> iterations of the loop, the price of day \<open>k + 1\<close>.
\<close>

theorem predict_length_and_order:
  assumes "50 \<le> length targetPrices" and "2 \<le> length spyPrices" and "0 \<le> N"
  shows "length (predictFuturePrices random targetPrices spyPrices correlatedStocksPrices N) = nat N
    \<and> (\<forall>k < nat N.
          predictFuturePrices random targetPrices spyPrices correlatedStocksPrices N ! k
            = Number_toFixed2 (running_price random targetPrices spyPrices (Suc k)))"
proof -
  have n: "nat (N + 1 - 1) = nat N"
    by simp
  show ?thesis
    unfolding predict_unfold[OF assms(1)] running_price_def
    using forecast_loop_length forecast_loop_nth n by metis
qed

theorem predict_length_and_order_witness:
  "50 \<le> length flat_target \<and> 2 \<le> length spy_two \<and> (0::int) \<le> 5
    \<and> length (predictFuturePrices half_draws flat_target spy_two [] 5) = 5"
  using predict_length_and_order [of flat_target spy_two 5 half_draws "[]"]
  by (simp add: flat_target_def spy_two_def)

section \<open>The unused parameter\<close>

text \<open>
  Claim C9. The forecast does not depend on the parameter \<^verbatim>\<open>correlatedStocksPrices\<close>:
  with the same target prices, reference prices, horizon and random draws, any two values
  of the parameter give the same forecast.
\<close>

theorem predict_ignores_correlated_stocks:
  "predictFuturePrices random targetPrices spyPrices correlatedStocksPrices N
     = predictFuturePrices random targetPrices spyPrices correlatedStocksPrices' N"
  by (simp add: predictFuturePrices_def)

theorem predict_ignores_correlated_stocks_witness:
  "predictFuturePrices half_draws flat_target spy_two [] 3
     = predictFuturePrices half_draws flat_target spy_two [dip_target, short_target] 3"
  using predict_ignores_correlated_stocks [of half_draws flat_target spy_two "[]" 3 "[dip_target, short_target]"]
  by simp

section \<open>The relative strength index\<close>

lemma reduce_sum_snoc: "reduce_sum (xs @ [x]) = reduce_sum xs + x"
  by (simp add: reduce_sum_def)

lemma nonneg_or_inf_cases:
  assumes "nonneg_or_inf x"
  obtains r where "x = Num r" "0 \<le> r" | "x = PosInf"
  using assms by (cases x) (simp_all add: nonneg_or_inf_def)

lemma reduce_sum_nonneg_or_inf:
  "\<forall>x \<in> set xs. nonneg_or_inf x \<Longrightarrow> nonneg_or_inf (reduce_sum xs)"
proof (induction xs rule: rev_induct)
  case Nil
  show ?case by (simp add: reduce_sum_def nonneg_or_inf_def)
next
  case (snoc x xs)
  then have s: "nonneg_or_inf (reduce_sum xs)" and x: "nonneg_or_inf x"
    by simp_all
  from s x show ?case
    by (cases "reduce_sum xs"; cases x) (simp_all add: reduce_sum_snoc nonneg_or_inf_def)
qed

lemma gains_nonneg_or_inf:
  "\<forall>x \<in> set (map (\<lambda>change. if Num 0 < change then change else Num 0) cs). nonneg_or_inf x"
proof (induction cs)
  case Nil
  show ?case by simp
next
  case (Cons c cs)
  have "nonneg_or_inf (if Num 0 < c then c else Num 0)"
    by (cases c) (simp_all add: nonneg_or_inf_def)
  with Cons show ?case by simp
qed

lemma losses_nonneg_or_inf:
  "\<forall>x \<in> set (map (\<lambda>change. if change < Num 0 then - change else Num 0) cs). nonneg_or_inf x"
proof (induction cs)
  case Nil
  show ?case by simp
next
  case (Cons c cs)
  have "nonneg_or_inf (if c < Num 0 then - c else Num 0)"
    by (cases c) (simp_all add: nonneg_or_inf_def)
  with Cons show ?case by simp
qed

lemma RSI_averages_nonneg_or_inf:
  assumes "0 < period"
  shows "nonneg_or_inf (RSI_avgGain prices period)"
    and "nonneg_or_inf (RSI_avgLoss prices period)"
proof -
  have avg: "nonneg_or_inf (s / Num (real_of_int period))" if "nonneg_or_inf s" for s
    using that assms by (cases s) (simp_all add: nonneg_or_inf_def)
  have "nonneg_or_inf (reduce_sum (RSI_gains prices period))"
    unfolding RSI_gains_def
    by (rule reduce_sum_nonneg_or_inf) (rule gains_nonneg_or_inf)
  then show "nonneg_or_inf (RSI_avgGain prices period)"
    unfolding RSI_avgGain_def by (rule avg)
  have "nonneg_or_inf (reduce_sum (RSI_losses prices period))"
    unfolding RSI_losses_def
    by (rule reduce_sum_nonneg_or_inf) (rule losses_nonneg_or_inf)
  then show "nonneg_or_inf (RSI_avgLoss prices period)"
    unfolding RSI_avgLoss_def by (rule avg)
qed

lemma rsi_formula_range:
  assumes "nonneg_or_inf g" and "nonneg_or_inf l" and "l \<noteq> Num 0"
  shows "(g / l = NaN \<or> Num 0 \<le> g / l)
       \<and> (Num 100 - Num 100 / (Num 1 + g / l) = NaN
            \<or> (\<exists>r. Num 100 - Num 100 / (Num 1 + g / l) = Num r \<and> 0 \<le> r \<and> r \<le> 100))"
proof -
  have fin: "0 \<le> 100 - 100 / (1 + q) \<and> 100 - 100 / (1 + q) \<le> 100 \<and> 1 + q \<noteq> 0"
    if "0 \<le> q" for q :: real
  proof -
    define d where "d = 1 + q"
    from that have "1 \<le> d"
      by (simp add: d_def)
    then have "100 / d \<le> 100" and "0 \<le> 100 / d" and "d \<noteq> 0"
      by (simp_all add: pos_divide_le_eq)
    then show ?thesis
      unfolding d_def by linarith
  qed
  from assms(2) show ?thesis
  proof (cases rule: nonneg_or_inf_cases)
    case (1 b)
    with assms(3) have b: "0 < b"
      by simp
    from assms(1) show ?thesis
    proof (cases rule: nonneg_or_inf_cases)
      case (1 a)
      with b have q: "0 \<le> a / b"
        by simp
      from fin[OF q] \<open>g = Num a\<close> \<open>l = Num b\<close> b q show ?thesis
        by (simp add: minus_jsnum_def)
    next
      case 2
      with \<open>l = Num b\<close> b show ?thesis
        by (simp add: minus_jsnum_def)
    qed
  next
    case 2
    from assms(1) show ?thesis
    proof (cases rule: nonneg_or_inf_cases)
      case (1 a)
      with \<open>l = PosInf\<close> show ?thesis
        by (simp add: minus_jsnum_def)
    next
      case 2
      with \<open>l = PosInf\<close> show ?thesis
        by (simp add: minus_jsnum_def)
    qed
  qed
qed

text \<open>
  Claim C5. For every price sequence whose trailing day-over-day losses sum to 0, so
  that the average loss is exactly 0, \<^verbatim>\<open>calculateRSI\<close> returns exactly 70. The
  average loss is the sum divided by the period: with a period of 0 it is \<^verbatim>\<open>0/0\<close>,
  which is \<^verbatim>\<open>NaN\<close> and not 0, so the period is not 0 here.
\<close>

theorem RSI_no_losses:
  "period \<noteq> 0 \<Longrightarrow> reduce_sum (RSI_losses prices period) = Num 0 \<Longrightarrow>
     calculateRSI prices period = Num 70"
  by (simp add: calculateRSI_def RSI_avgLoss_def strict_eq_def)

theorem RSI_no_losses_witness:
  "(2::int) \<noteq> 0 \<and> reduce_sum (RSI_losses [Num 1, Num 2, Num 3] 2) = Num 0
     \<and> calculateRSI [Num 1, Num 2, Num 3] 2 = Num 70"
proof -
  have h: "reduce_sum (RSI_losses [Num 1, Num 2, Num 3] 2) = Num 0"
    by (simp add: reduce_sum_def RSI_losses_def RSI_changes_def slice_from_def slice_pos_def
        minus_jsnum_def)
  show ?thesis
    using h RSI_no_losses [of 2 "[Num 1, Num 2, Num 3]"] by simp
qed

text \<open>
  The statement of claim C10 as it stands, that the index is never 100, fails: for the
  prices \<open>1, 0.5, Infinity\<close> and the period 2 the average gain is infinite, the average
  loss is \<open>0.25\<close>, \<open>rs\<close> is infinite, \<open>100 / (1 + rs)\<close> is 0 and the index is 100.
\<close>

theorem RSI_returns_100_counterexample:
  "calculateRSI [Num 1, Num (1 / 2), PosInf] 2 = Num 100"
  by (simp add: calculateRSI_def RSI_avgGain_def RSI_avgLoss_def RSI_gains_def RSI_losses_def
      RSI_changes_def reduce_sum_def slice_from_def slice_pos_def strict_eq_def minus_jsnum_def)


text \<open>
  Claim C10, amended. For every input price sequence and every positive period, the
  index is the fixed value 70 when the average loss is 0, and otherwise
  \<open>100 - 100 / (1 + rs)\<close> with \<open>rs\<close> the average gain over the average loss, where
  \<open>rs\<close> is \<^verbatim>\<open>NaN\<close> or \<open>rs \<ge> 0\<close> (the infinity included); the index is \<^verbatim>\<open>NaN\<close> or
  lies in the closed interval from 0 to 100. It is never negative; it can be 100.
\<close>

theorem RSI_range:
  assumes "0 < period"
  shows "(RSI_avgLoss prices period = Num 0 \<longrightarrow> calculateRSI prices period = Num 70)
       \<and> (RSI_avgLoss prices period \<noteq> Num 0 \<longrightarrow>
            calculateRSI prices period
              = Num 100 - Num 100 / (Num 1 + RSI_avgGain prices period / RSI_avgLoss prices period)
            \<and> (RSI_avgGain prices period / RSI_avgLoss prices period = NaN
                \<or> Num 0 \<le> RSI_avgGain prices period / RSI_avgLoss prices period))
       \<and> (calculateRSI prices period = NaN
            \<or> (\<exists>r. calculateRSI prices period = Num r \<and> 0 \<le> r \<and> r \<le> 100))"
proof (cases "RSI_avgLoss prices period = Num 0")
  case True
  then have "calculateRSI prices period = Num 70"
    by (simp add: calculateRSI_def strict_eq_def)
  with True show ?thesis
    by simp
next
  case False
  note avg = RSI_averages_nonneg_or_inf[OF assms, of prices]
  from avg(2) False have "\<not> strict_eq (RSI_avgLoss prices period) (Num 0)"
    by (simp add: strict_eq_def)
  then have "calculateRSI prices period
      = Num 100 - Num 100 / (Num 1 + RSI_avgGain prices period / RSI_avgLoss prices period)"
    by (simp add: calculateRSI_def Let_def)
  with False rsi_formula_range[OF avg False] show ?thesis
    by simp
qed

theorem RSI_range_witness:
  "(0::int) < 2
     \<and> calculateRSI [Num 2, Num 1, Num 2] 2 = Num 50
     \<and> (\<exists>r. calculateRSI [Num 2, Num 1, Num 2] 2 = Num r \<and> 0 \<le> r \<and> r \<le> 100)"
proof -
  have v: "calculateRSI [Num 2, Num 1, Num 2] 2 = Num 50"
    by (simp add: calculateRSI_def RSI_avgGain_def RSI_avgLoss_def RSI_gains_def RSI_losses_def
        RSI_changes_def reduce_sum_def slice_from_def slice_pos_def strict_eq_def minus_jsnum_def)
  have p: "(0::int) < 2"
    by simp
  from RSI_range [OF p, of "[Num 2, Num 1, Num 2]"]
  have "calculateRSI [Num 2, Num 1, Num 2] 2 = NaN
      \<or> (\<exists>r. calculateRSI [Num 2, Num 1, Num 2] 2 = Num r \<and> 0 \<le> r \<and> r \<le> 100)"
    by blast
  with v have "\<exists>r. calculateRSI [Num 2, Num 1, Num 2] 2 = Num r \<and> 0 \<le> r \<and> r \<le> 100"
    by simp
  with p v show ?thesis
    by blast
qed

section \<open>Sums of finite numbers\<close>

lemma foldl_plus_Num:
  "foldl (\<lambda>a b. a + b) (Num a) (map Num rs) = Num (a + sum_list rs)"
  by (induction rs arbitrary: a) (simp_all add: add.assoc)

lemma reduce_sum_Num: "reduce_sum (map Num rs) = Num (sum_list rs)"
  by (simp add: reduce_sum_def foldl_plus_Num)

lemma arithmetic_mean_Num:
  "rs \<noteq> [] \<Longrightarrow> arithmetic_mean (map Num rs) = Num (sum_list rs / real (length rs))"
  by (simp add: arithmetic_mean_def reduce_sum_Num)

section \<open>The moving average\<close>

lemma calculateMA_length: "length (calculateMA prices period) = length prices"
  by (simp add: calculateMA_def)

lemma slice_window:
  assumes "i < length prices" and "0 \<le> period" and "period - 1 \<le> int i"
  shows "slice prices (int i - period + 1) (int i + 1)
           = take (nat period) (drop (i + 1 - nat period) prices)"
    and "length (take (nat period) (drop (i + 1 - nat period) prices)) = nat period"
proof -
  from assms have a: "slice_pos prices (int i + 1) = i + 1"
    by (simp add: slice_pos_def)
  from assms have b: "slice_pos prices (int i - period + 1) = i + 1 - nat period"
    by (simp add: slice_pos_def)
  from assms have c: "i + 1 - (i + 1 - nat period) = nat period"
    by linarith
  show "slice prices (int i - period + 1) (int i + 1)
           = take (nat period) (drop (i + 1 - nat period) prices)"
    by (simp only: slice_def a b c)
  from assms show "length (take (nat period) (drop (i + 1 - nat period) prices)) = nat period"
    by simp
qed

text \<open>
  Claim C6. For every price sequence and every period (a count, so not negative), the
  moving average has one entry for each index \<open>i\<close> of the prices: \<^verbatim>\<open>NaN\<close> at each
  index strictly before \<open>period - 1\<close>, the arithmetic mean of the first \<open>period\<close>
  prices at index \<open>period - 1\<close>, and the arithmetic mean of the trailing \<open>period\<close>
  prices (the ones at indices \<open>i + 1 - period\<close> to \<open>i\<close>) at every index from \<open>period - 1\<close> on.
\<close>

theorem calculateMA_entries:
  assumes "i < length prices" and "0 \<le> period"
  shows "length (calculateMA prices period) = length prices
       \<and> (int i < period - 1 \<longrightarrow> calculateMA prices period ! i = NaN)
       \<and> (int i = period - 1 \<longrightarrow>
            calculateMA prices period ! i = arithmetic_mean (take (nat period) prices))
       \<and> (period - 1 \<le> int i \<longrightarrow>
            calculateMA prices period ! i
              = arithmetic_mean (take (nat period) (drop (i + 1 - nat period) prices)))"
proof -
  have later: "calculateMA prices period ! i
                 = arithmetic_mean (take (nat period) (drop (i + 1 - nat period) prices))"
    if "period - 1 \<le> int i"
  proof -
    from that have "\<not> int i < period - 1" by simp
    with assms(1) have "calculateMA prices period ! i
        = reduce_sum (slice prices (int i - period + 1) (int i + 1)) / Num (real_of_int period)"
      by (simp add: calculateMA_def)
    moreover from assms(2) have "real_of_int period = real (nat period)"
      by simp
    ultimately show ?thesis
      using slice_window[OF assms(1) assms(2) that] by (simp only: arithmetic_mean_def)
  qed
  have first: "i + 1 - nat period = 0" if "int i = period - 1"
    using that by simp
  show ?thesis
    using assms(1) later first by (auto simp: calculateMA_def)
qed

theorem calculateMA_entries_witness:
  "(1::nat) < length [Num 1, Num 3, Num 8] \<and> (0::int) \<le> 2
    \<and> calculateMA [Num 1, Num 3, Num 8] 2 ! 0 = NaN
    \<and> calculateMA [Num 1, Num 3, Num 8] 2 ! 1 = Num 2
    \<and> calculateMA [Num 1, Num 3, Num 8] 2 ! 2 = Num (11 / 2)"
  using calculateMA_entries [of 0 "[Num 1, Num 3, Num 8]" 2]
    calculateMA_entries [of 1 "[Num 1, Num 3, Num 8]" 2]
    calculateMA_entries [of 2 "[Num 1, Num 3, Num 8]" 2]
  by (simp add: arithmetic_mean_def reduce_sum_def numeral_2_eq_2)

section \<open>The correlation coefficient\<close>






section \<open>The indicators of the example inputs\<close>

text \<open>
  The snapshot of the two example series, computed from the definitions. \<open>flat_target\<close>
  is constant; \<open>dip_target\<close> has one dip 20 days before its end, so that the last 20
  prices hold one return of 1 and eighteen of 0.
\<close>

lemma slice_from_whole: "int (length xs) \<le> k \<Longrightarrow> slice_from xs (- k) = xs"
  by (simp add: slice_from_def slice_pos_def)

lemma slice_from_last: "0 < k \<Longrightarrow> k \<le> int (length xs) \<Longrightarrow> slice_from xs (- k) = drop (length xs - nat k) xs"
  by (auto simp add: slice_from_def slice_pos_def nat_diff_distrib')

lemma slice_from_1: "slice_from (x # xs) 1 = xs"
  by (simp add: slice_from_def slice_pos_def)

lemma calculateReturns_Nil: "calculateReturns [] = []"
  by (simp add: calculateReturns_def slice_from_def)

lemma calculateReturns_single: "calculateReturns [x] = []"
  by (simp add: calculateReturns_def slice_from_1)

lemma calculateReturns_Cons:
  "calculateReturns (x # y # ys) = (y - x) / x # calculateReturns (y # ys)"
  by (simp add: calculateReturns_def slice_from_1 map_upt_Suc del: upt_Suc)

lemma calculateReturns_replicate:
  "c \<noteq> 0 \<Longrightarrow> calculateReturns (replicate n (Num c)) = replicate (n - 1) (Num 0)"
proof (induction n)
  case 0
  show ?case by (simp add: calculateReturns_Nil)
next
  case (Suc n)
  then show ?case
    by (cases n) (simp_all add: calculateReturns_single calculateReturns_Cons minus_jsnum_def)
qed

lemma reduce_sum_zeros: "reduce_sum (replicate n (Num 0)) = Num 0"
  using reduce_sum_Num[of "replicate n 0"] by (simp add: sum_list_replicate)

lemma squares_zeros:
  "foldl (\<lambda>a b. a + Math_pow2 (b - Num 0)) (Num 0) (replicate n (Num 0)) = Num 0"
  by (induction n) (simp_all add: Math_pow2_def minus_jsnum_def)

lemma volatility_flat:
  assumes "c \<noteq> 0" and "2 \<le> n"
  shows "calculateVolatility (replicate n (Num c)) 20 = Num 0"
proof -
  have "slice_from (replicate n (Num c)) (- 20) = replicate (min n 20) (Num c)"
    by (cases "int n \<le> 20") (simp_all add: slice_from_whole slice_from_last min_def)
  moreover from assms(2) have "real (min n 20 - 1) \<noteq> 0"
    by simp
  ultimately show ?thesis
    using assms(1)
    by (simp add: calculateVolatility_def calculateReturns_replicate reduce_sum_zeros squares_zeros Let_def)
qed


lemma RSI_flat_window:
  assumes "slice_from prices (- period - 1) = replicate k (Num c)" and "period \<noteq> 0"
  shows "calculateRSI prices period = Num 70"
proof -
  have "map (\<lambda>i. if 0 < i then replicate k (Num c) ! i - replicate k (Num c) ! (i - 1) else Num 0)
          [0..<k] = replicate k (Num 0)"
    by (rule nth_equalityI) (simp_all add: minus_jsnum_def)
  with assms(1) have "RSI_changes prices period = replicate (k - 1) (Num 0)"
    by (simp add: RSI_changes_def slice_from_def slice_pos_def)
  then have "reduce_sum (RSI_losses prices period) = Num 0"
    by (simp add: RSI_losses_def reduce_sum_zeros)
  with assms(2) show ?thesis
    by (simp add: calculateRSI_def RSI_avgLoss_def strict_eq_def)
qed

lemma momentum_flat_window:
  assumes "slice_from prices (- 10) = replicate 10 (Num c)" and "c \<noteq> 0" and "10 \<le> length prices"
  shows "calculateMomentum prices 10 = Num 0"
  using assms by (simp add: calculateMomentum_def calculateReturns_replicate reduce_sum_zeros)

lemma elem_at_last: "xs \<noteq> [] \<Longrightarrow> elem_at xs (int (length xs) - 1) = xs ! (length xs - 1)"
proof -
  assume "xs \<noteq> []"
  then have "nat (int (length xs) - 1) = length xs - 1" and "0 \<le> int (length xs) - 1"
    by (simp_all add: Suc_leI)
  then show ?thesis
    by (simp add: elem_at_def)
qed

lemma calculateMA_nth:
  "i < length prices \<Longrightarrow>
     calculateMA prices period ! i
       = (if int i < period - 1 then NaN
          else reduce_sum (slice prices (int i - period + 1) (int i + 1))
                 / Num (real_of_int period))"
  by (simp add: calculateMA_def)

lemma calculateMA_last:
  assumes "0 < period" and "nat period \<le> length prices"
  shows "elem_at (calculateMA prices period) (int (length (calculateMA prices period)) - 1)
           = reduce_sum (slice_from prices (- period)) / Num (real_of_int period)"
proof -
  let ?n = "length prices"
  from assms have n: "0 < ?n" and i: "\<not> int (?n - 1) < period - 1"
    by auto
  from assms n have a: "slice_pos prices (int (?n - 1) - period + 1) = ?n - nat period"
    by (auto simp: slice_pos_def)
  from assms n have b: "slice_pos prices (int (?n - 1) + 1) = ?n"
    "slice_pos prices (- period) = ?n - nat period"
    by (auto simp: slice_pos_def)
  have sl: "slice prices (int (?n - 1) - period + 1) (int (?n - 1) + 1) = slice_from prices (- period)"
    unfolding slice_def slice_from_def a b by simp
  from n have "calculateMA prices period \<noteq> []"
    by (simp add: calculateMA_def)
  then have "elem_at (calculateMA prices period) (int (length (calculateMA prices period)) - 1)
      = calculateMA prices period ! (?n - 1)"
    using elem_at_last[of "calculateMA prices period"] by (simp add: calculateMA_length)
  also from n have "\<dots> = (if int (?n - 1) < period - 1 then NaN
          else reduce_sum (slice prices (int (?n - 1) - period + 1) (int (?n - 1) + 1))
                 / Num (real_of_int period))"
    by (intro calculateMA_nth) simp
  finally show ?thesis
    using i by (simp only: sl if_False)
qed

lemma correlation_short: "calculateCorrelation [x] ys = Num 0"
proof -
  have "min (length [x]) (length ys) < 2"
    by simp
  then show ?thesis
    unfolding calculateCorrelation_def Let_def by (simp only: if_True)
qed

lemma flat_slices:
  "slice_from flat_target (- 50) = flat_target"
  "slice_from flat_target (- 20) = replicate 20 (Num (801 / 8))"
  "slice_from flat_target (- 10) = replicate 10 (Num (801 / 8))"
  "slice_from flat_target (- 14 - 1) = replicate 15 (Num (801 / 8))"
  by (simp_all add: flat_target_def slice_from_def slice_pos_def)

lemma spy_two_returns: "calculateReturns (slice_from spy_two (- 20)) = [Num 1]"
  by (simp add: spy_two_def slice_from_whole calculateReturns_Cons calculateReturns_single minus_jsnum_def)

lemma spy_two_recent:
  "(elem_at spy_two (int (length spy_two) - 1) - elem_at spy_two (int (length spy_two) - 2))
     / elem_at spy_two (int (length spy_two) - 2) = Num 1"
  by (simp add: spy_two_def elem_at_def minus_jsnum_def)

lemma flat_volatility: "volatility (snapshot flat_target spy_two) = Num 0"
  by (simp add: snapshot_def flat_target_def volatility_flat)

lemma flat_rsi: "rsi (snapshot flat_target spy_two) = Num 70"
  by (simp add: snapshot_def RSI_flat_window[OF flat_slices(4)])

lemma flat_momentum: "momentum (snapshot flat_target spy_two) = Num 0"
proof -
  have "calculateMomentum flat_target 10 = Num 0"
    by (rule momentum_flat_window[OF flat_slices(3)]) (simp_all add: flat_target_def)
  then show ?thesis
    by (simp add: snapshot_def)
qed

lemma flat_correlation: "correlation (snapshot flat_target spy_two) = Num 0"
  by (simp add: snapshot_def spy_two_returns correlation_short)

lemma flat_recentSpyReturn: "recentSpyReturn (snapshot flat_target spy_two) = Num 1"
  by (simp add: snapshot_def spy_two_recent)

lemma reduce_sum_replicate: "reduce_sum (replicate n (Num c)) = Num (real n * c)"
  using reduce_sum_Num[of "replicate n c"] by (simp add: sum_list_replicate)

lemma flat_ma20:
  "elem_at (ma20 (snapshot flat_target spy_two)) (int (length (ma20 (snapshot flat_target spy_two))) - 1)
     = Num (801 / 8)"
proof -
  have "nat 20 \<le> length flat_target"
    by (simp add: flat_target_def)
  then have "elem_at (calculateMA flat_target 20) (int (length (calculateMA flat_target 20)) - 1)
      = reduce_sum (slice_from flat_target (- 20)) / Num (real_of_int 20)"
    by (intro calculateMA_last) simp_all
  then show ?thesis
    by (simp add: snapshot_def flat_slices reduce_sum_replicate) (simp add: flat_target_def reduce_sum_replicate)?
qed

lemma flat_ma50:
  "elem_at (ma50 (snapshot flat_target spy_two)) (int (length (ma50 (snapshot flat_target spy_two))) - 1)
     = Num (801 / 8)"
proof -
  have "nat 50 \<le> length flat_target"
    by (simp add: flat_target_def)
  then have "elem_at (calculateMA flat_target 50) (int (length (calculateMA flat_target 50)) - 1)
      = reduce_sum (slice_from flat_target (- 50)) / Num (real_of_int 50)"
    by (intro calculateMA_last) simp_all
  then show ?thesis
    by (simp add: snapshot_def flat_slices reduce_sum_replicate) (simp add: flat_target_def reduce_sum_replicate)?
qed

lemmas flat_snapshot = flat_volatility flat_rsi flat_momentum flat_correlation
  flat_recentSpyReturn flat_ma20 flat_ma50

lemma flat_expectedReturn:
  "expectedReturn (snapshot flat_target spy_two) (Num (801 / 8)) i = Num (- (8 / 100))"
  by (simp add: expectedReturn_def flat_snapshot calculateMeanReversionSignal_def minus_jsnum_def)

lemma flat_maxChange: "maxChange (snapshot flat_target spy_two) = Num 0"
  by (simp add: maxChange_def flat_snapshot Math_min_def)

lemma flat_boundedChange:
  "0 \<le> i \<Longrightarrow> boundedChange (snapshot flat_target spy_two) (Num (801 / 8)) i u = Num 0"
  by (simp add: boundedChange_def change_def totalReturn_def randomComponent_def dampening_def
      flat_expectedReturn flat_maxChange flat_volatility Math_min_def Math_max_def minus_jsnum_def)

lemma flat_newPrice:
  "0 \<le> i \<Longrightarrow> newPrice (snapshot flat_target spy_two) (Num (801 / 8)) i u = Num (801 / 8)"
  by (simp add: newPrice_def flat_boundedChange)

lemma flat_forecast_1:
  "predictFuturePrices half_draws flat_target spy_two [] 1 = [Num (10013 / 100)]"
proof -
  have "elem_at flat_target 49 = Num (801 / 8)"
    by (simp add: elem_at_def flat_target_def)
  moreover have "length flat_target = 50"
    by (simp add: flat_target_def)
  moreover have "Number_toFixed2 (Num (801 / 8)) = Num (10013 / 100)"
    by simp
  ultimately show ?thesis
    by (simp add: predictFuturePrices_def flat_slices flat_newPrice)
qed


lemma foldl_squares_Num:
  "foldl (\<lambda>a b. a + Math_pow2 (b - Num m)) (Num a) (map Num rs)
     = Num (a + sum_list (map (\<lambda>r. (r - m) * (r - m)) rs))"
  by (induction rs arbitrary: a) (simp_all add: Math_pow2_def minus_jsnum_def add.assoc)

lemma dip_slices:
  "slice_from dip_target (- 50) = dip_target"
  "slice_from dip_target (- 20) = Num 50 # replicate 19 (Num 100)"
  "slice_from dip_target (- 10) = replicate 10 (Num 100)"
  "slice_from dip_target (- 14 - 1) = replicate 15 (Num 100)"
  by (simp_all add: dip_target_def slice_from_def slice_pos_def)

lemma dip_returns:
  "calculateReturns (Num 50 # replicate 19 (Num 100)) = map Num (1 # replicate 18 0)"
proof -
  have "replicate 19 (Num 100) = Num 100 # replicate 18 (Num 100)"
    by (simp add: numeral_eq_Suc)
  moreover have "calculateReturns (replicate 19 (Num 100)) = replicate 18 (Num 0)"
    by (simp add: calculateReturns_replicate)
  ultimately show ?thesis
    by (simp add: calculateReturns_Cons minus_jsnum_def)
qed

lemma dip_volatility: "volatility (snapshot dip_target spy_two) = Math_sqrt (Num (18 / 361))"
proof -
  define rs :: "real list" where "rs = 1 # replicate 18 0"
  have len: "length (map Num rs) = 19" and total: "sum_list rs = 1"
    and squares: "sum_list (map (\<lambda>r. (r - 1 / 19) * (r - 1 / 19)) rs) = 342 / 361"
    by (simp_all add: rs_def sum_list_replicate)
  have "calculateVolatility dip_target 20 = Math_sqrt (Num (18 / 361))"
    unfolding calculateVolatility_def dip_slices dip_returns Let_def rs_def[symmetric]
      reduce_sum_Num len total
    by (simp add: foldl_squares_Num squares del: Math_sqrt.simps)
  then show ?thesis
    by (simp add: snapshot_def)
qed

lemma dip_rsi: "rsi (snapshot dip_target spy_two) = Num 70"
  by (simp add: snapshot_def RSI_flat_window[OF dip_slices(4)])

lemma dip_momentum: "momentum (snapshot dip_target spy_two) = Num 0"
proof -
  have "calculateMomentum dip_target 10 = Num 0"
    by (rule momentum_flat_window[OF dip_slices(3)]) (simp_all add: dip_target_def)
  then show ?thesis
    by (simp add: snapshot_def)
qed

lemma dip_correlation: "correlation (snapshot dip_target spy_two) = Num 0"
  by (simp add: snapshot_def spy_two_returns correlation_short)

lemma dip_recentSpyReturn: "recentSpyReturn (snapshot dip_target spy_two) = Num 1"
  by (simp add: snapshot_def spy_two_recent)

lemma dip_ma20:
  "elem_at (ma20 (snapshot dip_target spy_two)) (int (length (ma20 (snapshot dip_target spy_two))) - 1)
     = Num (195 / 2)"
proof -
  have "nat 20 \<le> length dip_target"
    by (simp add: dip_target_def)
  then have "elem_at (calculateMA dip_target 20) (int (length (calculateMA dip_target 20)) - 1)
      = reduce_sum (slice_from dip_target (- 20)) / Num (real_of_int 20)"
    by (intro calculateMA_last) simp_all
  moreover have "reduce_sum (Num 50 # replicate 19 (Num 100)) = Num 1950"
  proof -
    define rs :: "real list" where "rs = 50 # replicate 19 100"
    have "Num 50 # replicate 19 (Num 100) = map Num rs" and "sum_list rs = 1950"
      by (simp_all add: rs_def sum_list_replicate)
    then show ?thesis
      using reduce_sum_Num[of rs] by simp
  qed
  ultimately show ?thesis
    by (simp add: snapshot_def dip_slices)
qed

lemma dip_ma50:
  "elem_at (ma50 (snapshot dip_target spy_two)) (int (length (ma50 (snapshot dip_target spy_two))) - 1)
     = Num 99"
proof -
  have "nat 50 \<le> length dip_target"
    by (simp add: dip_target_def)
  then have "elem_at (calculateMA dip_target 50) (int (length (calculateMA dip_target 50)) - 1)
      = reduce_sum (slice_from dip_target (- 50)) / Num (real_of_int 50)"
    by (intro calculateMA_last) simp_all
  moreover have "reduce_sum dip_target = Num 4950"
  proof -
    define rs :: "real list" where "rs = replicate 30 100 @ [50] @ replicate 19 100"
    have "dip_target = map Num rs" and "sum_list rs = 4950"
      by (simp_all add: dip_target_def rs_def sum_list_replicate)
    then show ?thesis
      using reduce_sum_Num[of rs] by simp
  qed
  ultimately show ?thesis
    by (simp add: snapshot_def dip_slices)
qed

lemmas dip_snapshot = dip_rsi dip_momentum dip_correlation dip_recentSpyReturn dip_ma20 dip_ma50

lemma dip_expectedReturn:
  "expectedReturn (snapshot dip_target spy_two) (Num 100) i = Num (- (1831 / 21450))"
  by (simp add: expectedReturn_def dip_snapshot calculateMeanReversionSignal_def minus_jsnum_def)

lemma dip_totalReturn:
  "totalReturn (snapshot dip_target spy_two) (Num 100) 1 (1 / 2) = Num (- (1831 / 21450))"
  by (simp add: totalReturn_def randomComponent_def dip_expectedReturn dip_volatility minus_jsnum_def)

lemma dip_change:
  "change (snapshot dip_target spy_two) (Num 100) 1 (1 / 2)
     = Num (- (1831 / 21450) * sqrt (18 / 361) * exp (- (1 / 10)))"
  by (simp add: change_def dip_totalReturn dip_volatility dampening_def)

lemma flat_indicators: "forecast_indicators flat_target spy_two = snapshot flat_target spy_two"
  by (simp add: forecast_indicators_def flat_slices)

lemma flat_lastPrice: "lastPrice flat_target = Num (801 / 8)"
  by (simp add: lastPrice_def flat_slices) (simp add: flat_target_def elem_at_def)

lemma flat_change:
  "0 \<le> i \<Longrightarrow> change (snapshot flat_target spy_two) (Num (801 / 8)) i u = Num 0"
  by (simp add: change_def totalReturn_def randomComponent_def dampening_def
      flat_expectedReturn flat_volatility minus_jsnum_def)

lemma dip_indicators: "forecast_indicators dip_target spy_two = snapshot dip_target spy_two"
  by (simp add: forecast_indicators_def dip_slices)

lemma dip_lastPrice: "lastPrice dip_target = Num 100"
  by (simp add: lastPrice_def dip_slices) (simp add: dip_target_def elem_at_def nth_append)

lemma half_draws_shd: "shd half_draws = 1 / 2"
  by (simp add: half_draws_def)

section \<open>The pre-clamp change\<close>

text \<open>
  The statement of claim C3 as the specification has it, that the pre-clamp change is the
  combined return times the dampening factor and nothing else, fails in the first
  iteration of the forecast of \<open>dip_target\<close>: the combined return is \<open>-1831/21450\<close>,
  the volatility is \<open>sqrt (18/361)\<close>, and the change is their product times
  \<open>exp (-0.1)\<close>.
\<close>

theorem change_without_volatility_counterexample:
  "change (forecast_indicators dip_target spy_two) (lastPrice dip_target) 1 (shd half_draws)
     \<noteq> totalReturn (forecast_indicators dip_target spy_two) (lastPrice dip_target) 1
         (shd half_draws) * dampening 1"
proof -
  have "sqrt (18 / 361) \<noteq> (1::real)"
    by simp
  then have "- (1831 / 21450) * sqrt (18 / 361) * exp (- (1 / 10))
      \<noteq> - (1831 / 21450) * exp (- (1 / 10) :: real)"
    by simp
  then show ?thesis
    unfolding dip_indicators dip_lastPrice half_draws_shd dip_change dip_totalReturn dampening_def
    by simp
qed

text \<open>
  Claim C3, amended. For every forecast step \<open>i\<close>, the pre-clamp fractional daily change
  equals the combined return (weighted blend plus stochastic term) multiplied by the
  volatility and by the dampening factor \<open>exp (-0.1 * i)\<close>; for a finite combined return
  \<open>t\<close> and a finite volatility \<open>v\<close> it is \<open>t * v * exp (- i / 10)\<close>. The clamp is
  applied to this product, with no other factor in between.
\<close>

theorem change_formula:
  "change ind currentPrice i u = totalReturn ind currentPrice i u * volatility ind * dampening i
   \<and> totalReturn ind currentPrice i u = expectedReturn ind currentPrice i + randomComponent ind i u
   \<and> dampening i = Num (exp (- (real_of_int i / 10)))
   \<and> (totalReturn ind currentPrice i u = Num t \<and> volatility ind = Num v \<longrightarrow>
         change ind currentPrice i u = Num (t * v * exp (- (real_of_int i / 10))))
   \<and> boundedChange ind currentPrice i u
       = Math_max (- maxChange ind) (Math_min (maxChange ind) (change ind currentPrice i u))"
  by (simp add: change_def totalReturn_def dampening_def boundedChange_def)

theorem change_formula_witness:
  "totalReturn (forecast_indicators dip_target spy_two) (lastPrice dip_target) 1 (shd half_draws)
     = Num (- (1831 / 21450))
   \<and> volatility (forecast_indicators dip_target spy_two) = Num (sqrt (18 / 361))
   \<and> change (forecast_indicators dip_target spy_two) (lastPrice dip_target) 1 (shd half_draws)
       = Num (- (1831 / 21450) * sqrt (18 / 361) * exp (- (1 / 10)))"
proof -
  have t: "totalReturn (forecast_indicators dip_target spy_two) (lastPrice dip_target) 1
             (shd half_draws) = Num (- (1831 / 21450))"
    by (simp only: dip_indicators dip_lastPrice half_draws_shd dip_totalReturn)
  have v: "volatility (forecast_indicators dip_target spy_two) = Num (sqrt (18 / 361))"
    by (simp only: dip_indicators dip_volatility) simp
  show ?thesis
    using t v
      change_formula [of "forecast_indicators dip_target spy_two" "lastPrice dip_target" 1
        "shd half_draws" "- (1831 / 21450)" "sqrt (18 / 361)"]
    by simp
qed

section \<open>The bound on the daily change\<close>

lemma Math_sqrt_cases:
  "Math_sqrt x = NaN \<or> Math_sqrt x = PosInf \<or> (\<exists>r. Math_sqrt x = Num r \<and> 0 \<le> r)"
  by (cases x) simp_all

lemma maxChange_cases:
  assumes "volatility ind = Math_sqrt x"
  shows "maxChange ind = NaN \<or> (\<exists>m. maxChange ind = Num m \<and> 0 \<le> m \<and> m \<le> 1 / 10)"
proof -
  consider "Math_sqrt x = NaN" | "Math_sqrt x = PosInf" | r where "Math_sqrt x = Num r" "0 \<le> r"
    using Math_sqrt_cases[of x] by blast
  then show ?thesis
  proof cases
    case 1
    then show ?thesis
      by (simp add: maxChange_def assms Math_min_def)
  next
    case 2
    then have "maxChange ind = Num (1 / 10)"
      by (simp add: maxChange_def assms Math_min_def)
    moreover have "(0::real) \<le> 1 / 10" "(1::real) / 10 \<le> 1 / 10"
      by simp_all
    ultimately show ?thesis
      by blast
  next
    case 3
    then have "maxChange ind = Num (min (1 / 10) (r * 2))"
      by (simp add: maxChange_def assms Math_min_def min_def)
    moreover from 3 have "0 \<le> min (1 / 10) (r * 2)" "min (1 / 10) (r * 2) \<le> 1 / 10"
      by simp_all
    ultimately show ?thesis
      by blast
  qed
qed

lemma clamp_cases:
  assumes "0 \<le> m"
  shows "Math_max (Num (- m)) (Math_min (Num m) c)
           = (case c of NaN \<Rightarrow> NaN | PosInf \<Rightarrow> Num m | NegInf \<Rightarrow> Num (- m)
              | Num x \<Rightarrow> Num (max (- m) (min m x)))"
  using assms by (cases c) (auto simp: Math_min_def Math_max_def)

lemma clamp_within:
  assumes "0 \<le> m" and "c \<noteq> NaN"
  shows "within_bound (Num m) (Math_max (Num (- m)) (Math_min (Num m) c))"
  using assms by (cases c) (simp_all add: clamp_cases within_bound_def)

lemma clamp_NaN:
  "c = NaN \<or> m = NaN \<Longrightarrow> Math_max (- m) (Math_min m c) = NaN"
  by (auto simp: Math_min_def Math_max_def)

lemma snapshot_volatility: "\<exists>x. volatility (snapshot recentPrices spyPrices) = Math_sqrt x"
  unfolding snapshot_def calculateVolatility_def Let_def indicators.simps
  by (intro exI) (rule refl)

lemma boundedChange_bound:
  assumes "volatility ind = Math_sqrt x"
  shows "if change ind p i u = NaN \<or> maxChange ind = NaN
         then boundedChange ind p i u = NaN
         else within_bound (maxChange ind) (boundedChange ind p i u)"
proof (cases "change ind p i u = NaN \<or> maxChange ind = NaN")
  case True
  then show ?thesis
    by (simp add: boundedChange_def clamp_NaN)
next
  case False
  with maxChange_cases[OF assms] obtain m where "maxChange ind = Num m" "0 \<le> m"
    by auto
  with False show ?thesis
    by (simp add: boundedChange_def clamp_within)
qed

text \<open>
  The statement of claim C4 as the specification has it, that each predicted price
  changes by at most the bound relative to the previous day's price, fails for the
  forecast of one day from \<open>flat_target\<close>: the volatility and with it the bound are 0,
  the running price stays at the last price \<open>100.125\<close>, and the predicted price is its
  rounding \<open>100.13\<close>.
\<close>

theorem predicted_price_bound_counterexample:
  "\<not> within_bound (maxChange (forecast_indicators flat_target spy_two))
       (fractional_change (lastPrice flat_target)
          (predictFuturePrices half_draws flat_target spy_two [] 1 ! 0))"
  by (simp add: flat_indicators flat_maxChange flat_lastPrice flat_forecast_1
      within_bound_def fractional_change_def minus_jsnum_def)

text \<open>
  Claim C4, amended. For every target sequence of at least 50 entries, every reference
  sequence, every horizon and every value of the random draws, each step \<open>k + 1\<close> of the
  forecast multiplies the running (unrounded) price by \<open>1 + b\<close>, where \<open>b\<close> is the
  clamped change; whenever the pre-clamp change and the bound are not \<^verbatim>\<open>NaN\<close>,
  \<open>b\<close> lies within plus or minus the bound \<open>min(0.1, volatility * 2)\<close>, the volatility
  being the one of the 20 trailing prices computed once at the start. The predicted price
  of the step is the running price rounded to two decimals.
\<close>

theorem running_price_bounded:
  assumes "50 \<le> length targetPrices" and "k < nat N"
  shows "running_price random targetPrices spyPrices (Suc k)
           = running_price random targetPrices spyPrices k
               * (Num 1 + boundedChange (forecast_indicators targetPrices spyPrices)
                    (running_price random targetPrices spyPrices k) (1 + int k) (random !! k))
       \<and> (change (forecast_indicators targetPrices spyPrices)
              (running_price random targetPrices spyPrices k) (1 + int k) (random !! k) \<noteq> NaN
            \<and> maxChange (forecast_indicators targetPrices spyPrices) \<noteq> NaN
           \<longrightarrow> within_bound (maxChange (forecast_indicators targetPrices spyPrices))
                  (boundedChange (forecast_indicators targetPrices spyPrices)
                     (running_price random targetPrices spyPrices k) (1 + int k) (random !! k)))
       \<and> maxChange (forecast_indicators targetPrices spyPrices)
           = Math_min (Num (1 / 10))
               (calculateVolatility (slice_from targetPrices (- 50)) 20 * Num 2)
       \<and> predictFuturePrices random targetPrices spyPrices correlatedStocksPrices N ! k
           = Number_toFixed2 (running_price random targetPrices spyPrices (Suc k))"
proof -
  let ?ind = "forecast_indicators targetPrices spyPrices"
  let ?p = "running_price random targetPrices spyPrices k"
  obtain x where vol: "volatility ?ind = Math_sqrt x"
    unfolding forecast_indicators_def using snapshot_volatility by blast
  have step: "running_price random targetPrices spyPrices (Suc k)
      = ?p * (Num 1 + boundedChange ?ind ?p (1 + int k) (random !! k))"
    by (simp add: running_price_def newPrice_def)
  have bound: "within_bound (maxChange ?ind) (boundedChange ?ind ?p (1 + int k) (random !! k))"
    if "change ?ind ?p (1 + int k) (random !! k) \<noteq> NaN \<and> maxChange ?ind \<noteq> NaN"
    using boundedChange_bound[OF vol, of ?p "1 + int k" "random !! k"] that
    by (simp split: if_splits)
  have max: "maxChange ?ind
      = Math_min (Num (1 / 10)) (calculateVolatility (slice_from targetPrices (- 50)) 20 * Num 2)"
    by (simp add: maxChange_def forecast_indicators_def snapshot_def)
  from assms(2) have "k < nat (N + 1 - 1)"
    by simp
  then have "forecast_loop ?ind N 1 (lastPrice targetPrices) random ! k
             = Number_toFixed2 (running_price random targetPrices spyPrices (Suc k))"
    unfolding running_price_def by (rule forecast_loop_nth)
  then have emitted: "predictFuturePrices random targetPrices spyPrices correlatedStocksPrices N ! k
      = Number_toFixed2 (running_price random targetPrices spyPrices (Suc k))"
    by (simp only: predict_unfold[OF assms(1)])
  from step bound max emitted show ?thesis
    by (intro conjI impI)
qed

theorem running_price_bounded_witness:
  "50 \<le> length flat_target \<and> (0::nat) < nat 1
    \<and> running_price half_draws flat_target spy_two (Suc 0)
        = running_price half_draws flat_target spy_two 0
            * (Num 1 + boundedChange (forecast_indicators flat_target spy_two)
                 (running_price half_draws flat_target spy_two 0) 1 (half_draws !! 0))
    \<and> within_bound (maxChange (forecast_indicators flat_target spy_two))
         (boundedChange (forecast_indicators flat_target spy_two)
            (running_price half_draws flat_target spy_two 0) 1 (half_draws !! 0))
    \<and> predictFuturePrices half_draws flat_target spy_two [] 1 ! 0
        = Number_toFixed2 (running_price half_draws flat_target spy_two (Suc 0))"
proof -
  have len: "50 \<le> length flat_target"
    by (simp add: flat_target_def)
  have k: "(0::nat) < nat 1"
    by simp
  have one: "1 + int 0 = 1"
    by simp
  have start: "running_price half_draws flat_target spy_two 0 = Num (801 / 8)"
    by (simp add: running_price_def flat_lastPrice)
  have c: "change (forecast_indicators flat_target spy_two)
             (running_price half_draws flat_target spy_two 0) 1 (half_draws !! 0) \<noteq> NaN"
    by (simp add: start flat_indicators flat_change)
  have m: "maxChange (forecast_indicators flat_target spy_two) \<noteq> NaN"
    by (simp add: flat_indicators flat_maxChange)
  note step = running_price_bounded [OF len k, of half_draws spy_two "[]", unfolded one]
  from step c m len k show ?thesis
    by blast
qed

subsection \<open>The case of a change that is not a number\<close>

text \<open>
  A change that is \<^verbatim>\<open>NaN\<close> is not clamped: \<^verbatim>\<open>Math.min\<close> and \<^verbatim>\<open>Math.max\<close>
  return \<^verbatim>\<open>NaN\<close> (lemma \<open>boundedChange_bound\<close>), and the case occurs. With the
  constant target series and a
  reference series of three prices, \<^verbatim>\<open>calculateCorrelation\<close> runs on two reference
  returns and a stock variance of 0, divides 0 by 0, and the \<^verbatim>\<open>NaN\<close> passes through
  the blend, \<^verbatim>\<open>Math.min\<close>, \<^verbatim>\<open>Math.max\<close> and the rounding into the forecast.
\<close>

lemma spy_three_returns: "calculateReturns (slice_from spy_three (- 20)) = [Num 1, Num (1 / 2)]"
  by (simp add: spy_three_def slice_from_whole calculateReturns_Cons calculateReturns_single
      minus_jsnum_def)

lemma flat_stock_returns:
  "calculateReturns (slice_from flat_target (- 20)) = replicate 19 (Num 0)"
  by (simp add: flat_slices calculateReturns_replicate)

lemma NaN_absorbs:
  "x + NaN = NaN" "NaN + x = NaN" "x - NaN = NaN" "NaN - x = NaN"
  "x * NaN = NaN" "NaN * x = NaN" "x / NaN = NaN" "NaN / x = NaN"
  by (cases x; simp add: minus_jsnum_def)+

lemma correlation_zero_variance:
  "calculateCorrelation [Num 1, Num (1 / 2)] (replicate 19 (Num 0)) = NaN"
proof -
  have "reduce_sum [Num 1, Num (1 / 2)] = Num (3 / 2)"
    by (simp add: reduce_sum_def)
  then show ?thesis
    by (simp add: calculateCorrelation_def Let_def reduce_sum_zeros
        correlation_step_def minus_jsnum_def numeral_2_eq_2)
qed

lemma flat_three_correlation: "correlation (snapshot flat_target spy_three) = NaN"
  by (simp add: snapshot_def spy_three_returns flat_stock_returns correlation_zero_variance)

lemma flat_three_change:
  "change (snapshot flat_target spy_three) p i u = NaN"
  by (simp add: change_def totalReturn_def expectedReturn_def flat_three_correlation NaN_absorbs)

lemma flat_three_forecast:
  "predictFuturePrices half_draws flat_target spy_three [] 1 = [NaN]"
proof -
  have "length flat_target = 50"
    by (simp add: flat_target_def)
  moreover have "boundedChange (snapshot flat_target spy_three) p 1 u = NaN" for p u
    by (simp add: boundedChange_def flat_three_change Math_min_def Math_max_def)
  ultimately show ?thesis
    by (simp add: predictFuturePrices_def flat_slices newPrice_def NaN_absorbs)
qed

section \<open>Determinism\<close>




subsection \<open>The draws matter\<close>

text \<open>
  The hypothesis on the draws is needed. For the series \<open>dip_target\<close> the volatility is
  not 0, the first step with the draw \<open>0.5\<close> leads to a price of at least 98 and the
  first step with the draw 0 to a price of at most 97, so the forecasts of one day differ.
\<close>

lemma product_bounds:
  fixes a b c :: real
  assumes "al \<le> a" "a \<le> ah" "bl \<le> b" "b \<le> bh" "cl \<le> c" "c \<le> ch"
    and "0 \<le> al" "0 \<le> bl" "0 \<le> cl"
  shows "al * bl * cl \<le> a * b * c" and "a * b * c \<le> ah * bh * ch"
proof -
  from assms have ab: "al * bl \<le> a * b" "a * b \<le> ah * bh"
    by (auto intro!: mult_mono)
  from assms have "0 \<le> al * bl" "0 \<le> ah * bh" "0 \<le> a * b"
    by auto
  with ab assms show "al * bl * cl \<le> a * b * c" and "a * b * c \<le> ah * bh * ch"
    by (auto intro!: mult_mono)
qed

lemma dip_volatility_bounds:
  "22 / 100 \<le> sqrt (18 / 361 :: real)" "sqrt (18 / 361 :: real) \<le> 23 / 100"
proof -
  have "(22 / 100)\<^sup>2 \<le> (18 / 361 :: real)"
    by (simp add: power2_eq_square)
  then show "22 / 100 \<le> sqrt (18 / 361 :: real)"
    by (rule real_le_rsqrt)
  have "(18 / 361 :: real) \<le> (23 / 100)\<^sup>2"
    by (simp add: power2_eq_square)
  then show "sqrt (18 / 361 :: real) \<le> 23 / 100"
    by (intro real_le_lsqrt) simp_all
qed

lemma dampening_bounds: "9 / 10 \<le> exp (- (1 / 10) :: real)" "exp (- (1 / 10) :: real) \<le> 1"
  using exp_ge_add_one_self[of "- (1 / 10) :: real"] by simp_all

lemma dip_newPrice:
  assumes "- (1 / 10) \<le> (- (1831 / 21450) + sqrt (18 / 361) * (u - 1 / 2)) * sqrt (18 / 361) * exp (- (1 / 10))"
    and "(- (1831 / 21450) + sqrt (18 / 361) * (u - 1 / 2)) * sqrt (18 / 361) * exp (- (1 / 10)) \<le> 1 / 10"
  shows "newPrice (snapshot dip_target spy_two) (Num 100) 1 u
           = Num (100 * (1 + (- (1831 / 21450) + sqrt (18 / 361) * (u - 1 / 2))
                              * sqrt (18 / 361) * exp (- (1 / 10))))"
proof -
  define v :: real where "v = sqrt (18 / 361)"
  define c where "c = (- (1831 / 21450) + v * (u - 1 / 2)) * v * exp (- (1 / 10))"
  have vol: "volatility (snapshot dip_target spy_two) = Num v"
    unfolding dip_volatility v_def by simp
  have v: "22 / 100 \<le> v"
    unfolding v_def by (rule dip_volatility_bounds)
  have "change (snapshot dip_target spy_two) (Num 100) 1 u = Num c"
    by (simp add: change_def totalReturn_def randomComponent_def dampening_def
        dip_expectedReturn vol c_def minus_jsnum_def)
  moreover from v have "maxChange (snapshot dip_target spy_two) = Num (1 / 10)"
    by (simp add: maxChange_def vol Math_min_def)
  moreover from assms have "max (- (1 / 10)) (min (1 / 10) c) = c"
    unfolding c_def v_def by simp
  ultimately have "boundedChange (snapshot dip_target spy_two) (Num 100) 1 u = Num c"
    using clamp_cases[of "1 / 10" "Num c"] by (simp add: boundedChange_def)
  then show ?thesis
    by (simp add: newPrice_def c_def v_def)
qed

lemma toFixed2_below:
  assumes "0 < a" and "a \<le> of_int n"
  shows "\<exists>r. Number_toFixed2 (Num a) = Num r \<and> r \<le> of_int n"
proof (cases "10 ^ 21 \<le> \<bar>a\<bar>")
  case True
  with assms show ?thesis by simp
next
  case False
  from assms have "a * 100 + 1 / 2 < of_int (n * 100 + 1)"
    by simp
  then have "\<lfloor>a * 100 + 1 / 2\<rfloor> < n * 100 + 1"
    by (simp only: floor_less_iff)
  then have "\<lfloor>a * 100 + 1 / 2\<rfloor> \<le> n * 100"
    by simp
  then have "real_of_int \<lfloor>a * 100 + 1 / 2\<rfloor> \<le> real_of_int (n * 100)"
    by (simp only: of_int_le_iff)
  then have "real_of_int \<lfloor>a * 100 + 1 / 2\<rfloor> / 100 \<le> of_int n"
    by simp
  moreover from False assms(1)
  have "Number_toFixed2 (Num a) = Num (real_of_int \<lfloor>a * 100 + 1 / 2\<rfloor> / 100)"
    by simp
  ultimately show ?thesis
    by blast
qed

lemma toFixed2_above:
  assumes "0 < a" and "of_int n \<le> a"
  shows "\<exists>r. Number_toFixed2 (Num a) = Num r \<and> of_int n \<le> r"
proof (cases "10 ^ 21 \<le> \<bar>a\<bar>")
  case True
  with assms show ?thesis by simp
next
  case False
  from assms have "of_int (n * 100) \<le> a * 100 + 1 / 2"
    by simp
  then have "n * 100 \<le> \<lfloor>a * 100 + 1 / 2\<rfloor>"
    by (simp only: le_floor_iff)
  then have "real_of_int (n * 100) \<le> real_of_int \<lfloor>a * 100 + 1 / 2\<rfloor>"
    by (simp only: of_int_le_iff)
  then have "of_int n \<le> real_of_int \<lfloor>a * 100 + 1 / 2\<rfloor> / 100"
    by simp
  moreover from False assms(1)
  have "Number_toFixed2 (Num a) = Num (real_of_int \<lfloor>a * 100 + 1 / 2\<rfloor> / 100)"
    by simp
  ultimately show ?thesis
    by blast
qed


lemma dip_forecast_1:
  "predictFuturePrices rs dip_target spy_two cs 1
     = [Number_toFixed2 (newPrice (snapshot dip_target spy_two) (Num 100) 1 (shd rs))]"
proof -
  have "elem_at dip_target 49 = Num 100"
    by (simp add: elem_at_def dip_target_def nth_append)
  moreover have "length dip_target = 50"
    by (simp add: dip_target_def)
  ultimately show ?thesis
    by (simp add: predictFuturePrices_def dip_slices)
qed

lemma dip_price_half:
  "\<exists>a. newPrice (snapshot dip_target spy_two) (Num 100) 1 (1 / 2) = Num a \<and> 98 \<le> a"
proof -
  define c :: real where "c = 1831 / 21450 * sqrt (18 / 361) * exp (- (1 / 10))"
  have "(0::real) \<le> 1831 / 21450" "(1831 / 21450 :: real) \<le> 1831 / 21450"
    "(0::real) \<le> 22 / 100" "(0::real) \<le> 9 / 10"
    by simp_all
  note bounds = product_bounds[OF this(1,2) dip_volatility_bounds dampening_bounds order_refl this(3,4)]
  from bounds have c: "0 \<le> c" "c \<le> 2 / 100"
    unfolding c_def by linarith+
  have eq: "(- (1831 / 21450) + sqrt (18 / 361) * (1 / 2 - 1 / 2)) * sqrt (18 / 361) * exp (- (1 / 10)) = - c"
    by (simp add: c_def)
  from c have "newPrice (snapshot dip_target spy_two) (Num 100) 1 (1 / 2) = Num (100 * (1 + - c))"
    by (subst dip_newPrice; (subst eq)?) simp_all
  moreover from c have "98 \<le> 100 * (1 + - c)"
    by simp
  ultimately show ?thesis
    by blast
qed

lemma dip_price_zero:
  "\<exists>a. newPrice (snapshot dip_target spy_two) (Num 100) 1 0 = Num a \<and> 0 < a \<and> a \<le> 97"
proof -
  define c :: real
    where "c = (1831 / 21450 + sqrt (18 / 361) / 2) * sqrt (18 / 361) * exp (- (1 / 10))"
  have a: "1831 / 21450 + (22 / 100) / 2 \<le> 1831 / 21450 + sqrt (18 / 361 :: real) / 2"
    "1831 / 21450 + sqrt (18 / 361 :: real) / 2 \<le> 1831 / 21450 + (23 / 100) / 2"
    using dip_volatility_bounds by simp_all
  have n: "(0::real) \<le> 1831 / 21450 + (22 / 100) / 2" "(0::real) \<le> 22 / 100"
    "(0::real) \<le> 9 / 10"
    by simp_all
  note bounds = product_bounds[OF a dip_volatility_bounds dampening_bounds n, folded c_def]
  have "(3 / 100 :: real) \<le> (1831 / 21450 + (22 / 100) / 2) * (22 / 100) * (9 / 10)"
    and "(1831 / 21450 + (23 / 100) / 2) * (23 / 100) * 1 \<le> (1 / 10 :: real)"
    by simp_all
  with bounds have c: "3 / 100 \<le> c" "c \<le> 1 / 10"
    by linarith+
  have eq: "(- (1831 / 21450) + sqrt (18 / 361) * (0 - 1 / 2)) * sqrt (18 / 361) * exp (- (1 / 10)) = - c"
    by (simp add: c_def algebra_simps)
  from c have "newPrice (snapshot dip_target spy_two) (Num 100) 1 0 = Num (100 * (1 + - c))"
    by (subst dip_newPrice; (subst eq)?) simp_all
  moreover from c have "0 < 100 * (1 + - c)" "100 * (1 + - c) \<le> 97"
    by simp_all
  ultimately show ?thesis
    by blast
qed

lemma dip_draws_matter:
  "predictFuturePrices (0 ## half_draws) dip_target spy_two [] 1
     \<noteq> predictFuturePrices half_draws dip_target spy_two [] 1"
proof -
  obtain a0 where a0: "newPrice (snapshot dip_target spy_two) (Num 100) 1 0 = Num a0"
    "0 < a0" "a0 \<le> 97"
    using dip_price_zero by blast
  obtain a1 where a1: "newPrice (snapshot dip_target spy_two) (Num 100) 1 (1 / 2) = Num a1"
    "98 \<le> a1"
    using dip_price_half by blast
  from a0 obtain r0 where r0: "Number_toFixed2 (Num a0) = Num r0" "r0 \<le> 97"
    using toFixed2_below[of a0 97] by auto
  from a1 obtain r1 where r1: "Number_toFixed2 (Num a1) = Num r1" "98 \<le> r1"
    using toFixed2_above[of a1 98] by auto
  from r0 r1 have "Number_toFixed2 (Num a0) \<noteq> Number_toFixed2 (Num a1)"
    by simp
  then show ?thesis
    by (simp add: dip_forecast_1 half_draws_shd a0 a1)
qed

end
